theory Spec2Isabelle
  imports Complex_Main
begin

section \<open>JavaScript values\<close>

text \<open>
  A JavaScript \<open>number\<close>: the finite doubles are read as reals (the only arithmetic the
  motor controller does on them is \<open>Math.min\<close> and \<open>Math.max\<close>, which never round), next to
  the three special values. \<open>typeof NaN\<close> is \<open>"number"\<close>.
\<close>

datatype jsnum = NaN | NegInf | Fin real | PosInf

fun Math_min :: "jsnum \<Rightarrow> jsnum \<Rightarrow> jsnum" where
  "Math_min NaN b = NaN"
| "Math_min a NaN = NaN"
| "Math_min NegInf b = NegInf"
| "Math_min a NegInf = NegInf"
| "Math_min PosInf b = b"
| "Math_min a PosInf = a"
| "Math_min (Fin x) (Fin y) = Fin (min x y)"

fun Math_max :: "jsnum \<Rightarrow> jsnum \<Rightarrow> jsnum" where
  "Math_max NaN b = NaN"
| "Math_max a NaN = NaN"
| "Math_max PosInf b = PosInf"
| "Math_max a PosInf = PosInf"
| "Math_max NegInf b = b"
| "Math_max a NegInf = a"
| "Math_max (Fin x) (Fin y) = Fin (max x y)"


text \<open>
  A value as \<open>JSON.parse\<close> builds it, or as a property of an object holds it. A property
  that is absent reads as \<open>undefined\<close>, which is \<open>None\<close> of \<open>json option\<close>.
\<close>

datatype json =
    JNull
  | JBool bool
  | JNum jsnum
  | JStr string
  | JArr "json list"
  | JObj "(string \<times> json) list"

fun typeof :: "json option \<Rightarrow> string" where
  "typeof None = ''undefined''"
| "typeof (Some JNull) = ''object''"
| "typeof (Some (JBool b)) = ''boolean''"
| "typeof (Some (JNum n)) = ''number''"
| "typeof (Some (JStr s)) = ''string''"
| "typeof (Some (JArr xs)) = ''object''"
| "typeof (Some (JObj kvs)) = ''object''"

text \<open>Truthiness, as \<open>if (raw)\<close> and \<open>if (data)\<close> test it.\<close>

fun truthy :: "json \<Rightarrow> bool" where
  "truthy JNull = False"
| "truthy (JBool b) = b"
| "truthy (JNum NaN) = False"
| "truthy (JNum (Fin x)) = (x \<noteq> 0)"
| "truthy (JNum NegInf) = True"
| "truthy (JNum PosInf) = True"
| "truthy (JStr s) = (s \<noteq> [])"
| "truthy (JArr xs) = True"
| "truthy (JObj kvs) = True"

text \<open>A thrown value: an error object with its \<open>name\<close> and its \<open>message\<close>.\<close>

datatype js_error = Thrown (err_name: string) (err_message: string)

abbreviation TypeError :: "string \<Rightarrow> js_error" where
  "TypeError m \<equiv> Thrown ''TypeError'' m"

abbreviation AbortError :: "string \<Rightarrow> js_error" where
  "AbortError m \<equiv> Thrown ''AbortError'' m"

abbreviation SyntaxError :: "string \<Rightarrow> js_error" where
  "SyntaxError m \<equiv> Thrown ''SyntaxError'' m"

abbreviation Error :: "string \<Rightarrow> js_error" where
  "Error m \<equiv> Thrown ''Error'' m"

text \<open>
  \<open>String.prototype.toLowerCase\<close> on the characters of \<open>string\<close>: the letters \<open>A\<close>--\<open>Z\<close>
  move to \<open>a\<close>--\<open>z\<close>. (Beyond these characters JavaScript lower-cases more, but nothing
  else to a letter of \<open>on\<close> or of \<open>reverse\<close>, the two words compared with.) Calling the
  method on a value that is not a string throws a \<open>TypeError\<close>.
\<close>

definition lower_char :: "char \<Rightarrow> char" where
  "lower_char c =
     (let n = (of_char c :: nat) in if 65 \<le> n \<and> n \<le> 90 then char_of (n + 32) else c)"

fun toLowerCase :: "json option \<Rightarrow> js_error + string" where
  "toLowerCase (Some (JStr s)) = Inr (map lower_char s)"
| "toLowerCase v = Inl (TypeError ''toLowerCase is not a function'')"

definition bind_err :: "'e + 'a \<Rightarrow> ('a \<Rightarrow> 'e + 'b) \<Rightarrow> 'e + 'b" where
  "bind_err m f = (case m of Inl e \<Rightarrow> Inl e | Inr x \<Rightarrow> f x)"

section \<open>The reconciler \<open>toMotorState\<close>\<close>

text \<open>
  \<open>RawStateFromServer\<close> declares three optional properties; what the device really sends
  in them is unchecked, so each holds any value or is absent.
\<close>

record RawStateFromServer =
  raw_power :: "json option"
  raw_direction :: "json option"
  raw_speed :: "json option"

record MotorState =
  power :: bool
  dir :: int
  speed :: jsnum

text \<open>
  The three \<open>const\<close>s of \<open>toMotorState\<close>, in the source's order and with the short-circuit
  evaluation of \<open>||\<close> and \<open>&&\<close>: the method call \<open>.toLowerCase()\<close> is evaluated only
  behind its \<open>typeof\<close> test.
\<close>

definition powerVal :: "RawStateFromServer \<Rightarrow> js_error + bool" where
  "powerVal raw =
     (if raw_power raw = Some (JBool True) then Inr True
      else bind_err
        (if typeof (raw_power raw) = ''string''
         then bind_err (toLowerCase (raw_power raw)) (\<lambda>s. Inr (s = ''on''))
         else Inr False)
        (\<lambda>b. if b then Inr True else Inr (raw_power raw = Some (JStr ''ON''))))"

definition dirVal :: "RawStateFromServer \<Rightarrow> js_error + int" where
  "dirVal raw =
     bind_err
       (if typeof (raw_direction raw) = ''string''
        then bind_err (toLowerCase (raw_direction raw)) (\<lambda>s. Inr (s = ''reverse''))
        else Inr False)
       (\<lambda>b. Inr (if b then - 1 else 1))"

text \<open>
  \<open>typeof raw.speed === "number"\<close> holds of the numbers, \<open>NaN\<close> and the infinities
  included, and of nothing else (lemma \<open>typeof_number\<close> below).
\<close>

definition speedVal :: "RawStateFromServer \<Rightarrow> MotorState option \<Rightarrow> jsnum" where
  "speedVal raw prev =
     (case raw_speed raw of
        Some (JNum n) \<Rightarrow> Math_max (Fin 0) (Math_min (Fin 100) n)
      | _ \<Rightarrow> (case prev of None \<Rightarrow> Fin 100 | Some p \<Rightarrow> speed p))"

definition toMotorState :: "RawStateFromServer \<Rightarrow> MotorState option \<Rightarrow> js_error + MotorState" where
  "toMotorState raw prev =
     bind_err (powerVal raw) (\<lambda>p.
     bind_err (dirVal raw) (\<lambda>d.
     Inr \<lparr>power = p, dir = d, speed = speedVal raw prev\<rparr>))"

text \<open>
  Reading \<open>raw.power\<close>, \<open>raw.direction\<close> and \<open>raw.speed\<close> off a JavaScript value. On
  \<open>null\<close> the read throws a \<open>TypeError\<close>. In an object the last of several equal keys
  wins, as in \<open>JSON.parse\<close>; a number, string, boolean or array has none of the three
  properties.
\<close>

fun as_raw :: "json \<Rightarrow> js_error + RawStateFromServer" where
  "as_raw JNull = Inl (TypeError ''Cannot read properties of null'')"
| "as_raw (JObj kvs) =
     Inr \<lparr>raw_power = map_of (rev kvs) ''power'',
          raw_direction = map_of (rev kvs) ''direction'',
          raw_speed = map_of (rev kvs) ''speed''\<rparr>"
| "as_raw v = Inr \<lparr>raw_power = None, raw_direction = None, raw_speed = None\<rparr>"

text \<open>
  \<open>toMotorState\<close> as its two callers use it: on the value \<open>res.json()\<close> gave, which is
  typed \<open>any\<close>.
\<close>

definition toMotorState_any :: "json \<Rightarrow> MotorState option \<Rightarrow> js_error + MotorState" where
  "toMotorState_any raw prev = bind_err (as_raw raw) (\<lambda>r. toMotorState r prev)"


section \<open>The component: state, refs and the browser around it\<close>

definition POLL_INTERVAL :: nat where "POLL_INTERVAL = 3000"
definition MAX_BACKOFF :: nat where "MAX_BACKOFF = 30000"
definition SPEED_DEBOUNCE_MS :: nat where "SPEED_DEBOUNCE_MS = 150"

text \<open>The closures handed to \<open>window.setTimeout\<close>: the poll, and the debounced speed post.\<close>

datatype callback = PollStateOnce | PostSpeed jsnum

record request =
  req_method :: string
  req_path :: string
  req_body :: "json option"
  req_signal :: "nat option"

text \<open>
  The \<open>useState\<close> cells and the \<open>useRef\<close> cells of \<open>MotorControl\<close>, then what the
  browser holds for it: the time, the pending timers (handle, due time, callback; in the
  order they were set), the abort controllers that were aborted, and the requests sent so
  far (oldest first).
\<close>

record Client =
  state :: MotorState
  loading :: bool
  error :: "string option"
  connected :: bool
  lastSeen :: "nat option"
  backoffRef :: nat
  pollTimerRef :: "nat option"
  speedTimerRef :: "nat option"
  pollAbortRef :: "nat option"
  mountedRef :: bool
  clock :: nat
  nextHandle :: nat
  timers :: "(nat \<times> nat \<times> callback) list"
  nextController :: nat
  aborted :: "nat list"
  requests :: "request list"

definition setTimeout :: "callback \<Rightarrow> nat \<Rightarrow> Client \<Rightarrow> nat \<times> Client" where
  "setTimeout cb delay s =
     (nextHandle s,
      s\<lparr>timers := timers s @ [(nextHandle s, clock s + delay, cb)],
        nextHandle := Suc (nextHandle s)\<rparr>)"

definition clearTimeout :: "nat \<Rightarrow> Client \<Rightarrow> Client" where
  "clearTimeout h s = s\<lparr>timers := filter (\<lambda>(h', d, cb). h' \<noteq> h) (timers s)\<rparr>"

text \<open>
  \<open>if (ref.current) window.clearTimeout(ref.current)\<close> for a \<open>number | null\<close> ref: the
  test passes for a handle other than 0.
\<close>

definition clear_ref :: "nat option \<Rightarrow> Client \<Rightarrow> Client" where
  "clear_ref r s = (case r of Some h \<Rightarrow> if h \<noteq> 0 then clearTimeout h s else s | None \<Rightarrow> s)"

definition fetch :: "request \<Rightarrow> Client \<Rightarrow> Client" where
  "fetch req s = s\<lparr>requests := requests s @ [req]\<rparr>"

subsection \<open>\<open>fetchJson\<close>\<close>

text \<open>
  What the network gives back to one \<open>fetch\<close>: the promise rejects (no connection, or the
  signal was aborted), or resolves to a response, whose body is then read by \<open>text()\<close> or
  \<open>json()\<close>, each of which may reject as well.
\<close>

record response =
  res_ok :: bool
  res_status :: nat
  res_statusText :: string
  res_text :: "js_error + string"
  res_json :: "js_error + json"

datatype fetch_settled = Rejected js_error | Resolved response

text \<open>The decimal digits of \<open>res.status\<close>, as the template string prints them.\<close>

definition digit_char :: "nat \<Rightarrow> char" where
  "digit_char d = ''0123456789'' ! (d mod 10)"

fun string_of_nat :: "nat \<Rightarrow> string" where
  "string_of_nat n =
     (if n < 10 then [digit_char n]
      else string_of_nat (n div 10) @ [digit_char (n mod 10)])"

declare string_of_nat.simps [simp del]

text \<open>
  The white space \<open>String.prototype.trim\<close> strips, among the characters of \<open>string\<close>
  (code units below 256): tab, line feed, vertical tab, form feed, carriage return, space
  and the no-break space.
\<close>

definition is_space :: "char \<Rightarrow> bool" where
  "is_space c = (of_char c \<in> {9, 10, 11, 12, 13, 32, 160 :: nat})"

definition trim :: "string \<Rightarrow> string" where
  "trim s = rev (dropWhile is_space (rev (dropWhile is_space s)))"

definition fetchJson :: "fetch_settled \<Rightarrow> js_error + json" where
  "fetchJson r =
     (case r of
        Rejected e \<Rightarrow> Inl e
      | Resolved res \<Rightarrow>
          if \<not> res_ok res
          then (let text = (case res_text res of Inl e \<Rightarrow> [] | Inr t \<Rightarrow> t)
                in Inl (Error (trim (string_of_nat (res_status res) @ '' '' @
                                     res_statusText res @ '' '' @ text))))
          else (case res_json res of Inr j \<Rightarrow> Inr j | Inl e \<Rightarrow> Inr JNull))"

text \<open>
  \<open>setState((prev) => ({ ...prev, ...toMotorState(raw, prev) }))\<close>: the three fields of
  the result overwrite the three fields of \<open>prev\<close>. Both callers run the updater only
  behind \<open>if (raw)\<close>, where it cannot throw (lemma \<open>toMotorState_any_total\<close> below), so
  the \<open>Inl\<close> branch is never taken.
\<close>

definition merge_raw :: "json \<Rightarrow> Client \<Rightarrow> Client" where
  "merge_raw raw s =
     (case toMotorState_any raw (Some (state s)) of
        Inr st \<Rightarrow> s\<lparr>state := st\<rparr>
      | Inl e \<Rightarrow> s)"

subsection \<open>\<open>pollStateOnce\<close>\<close>

text \<open>Up to the \<open>await\<close>: abort the controller of the last cycle, make a new one, send.\<close>

definition pollStateOnce_begin :: "Client \<Rightarrow> Client" where
  "pollStateOnce_begin s =
     (let s1 = (case pollAbortRef s of
                  Some c \<Rightarrow> s\<lparr>aborted := c # aborted s\<rparr>
                | None \<Rightarrow> s);
          ctrl = nextController s1;
          s2 = s1\<lparr>pollAbortRef := Some ctrl, nextController := Suc ctrl\<rparr>
      in fetch \<lparr>req_method = ''GET'', req_path = ''/api/state'',
                req_body = None, req_signal = Some ctrl\<rparr> s2)"

text \<open>The \<open>finally\<close> block.\<close>

definition poll_finally :: "Client \<Rightarrow> Client" where
  "poll_finally s =
     (if \<not> mountedRef s then s
      else (let next = (if backoffRef s \<noteq> 0 then backoffRef s else POLL_INTERVAL);
                s1 = clear_ref (pollTimerRef s) s;
                (h, s2) = setTimeout PollStateOnce next s1
            in s2\<lparr>pollTimerRef := Some h\<rparr>))"

text \<open>
  From the \<open>await\<close> on, given what \<open>fetchJson\<close> returned or threw: the rest of the
  \<open>try\<close> block, or the \<open>catch\<close> block, and then \<open>finally\<close>.
\<close>

definition pollStateOnce_settle :: "js_error + json \<Rightarrow> Client \<Rightarrow> Client" where
  "pollStateOnce_settle r s =
     (case r of
        Inr raw \<Rightarrow>
          if \<not> mountedRef s then poll_finally s
          else poll_finally
                 ((if truthy raw then merge_raw raw s else s)
                    \<lparr>error := None, connected := True, lastSeen := Some (clock s),
                     backoffRef := 0\<rparr>)
      | Inl err \<Rightarrow>
          if err_name err = ''AbortError'' then poll_finally s
          else poll_finally
                 (s\<lparr>error := Some ''Failed to connect to ESP32'', connected := False,
                    backoffRef := (if backoffRef s \<noteq> 0
                                   then min (backoffRef s * 2) MAX_BACKOFF else 1000)\<rparr>))"

subsection \<open>\<open>postCommand\<close>\<close>

definition postCommand_begin :: "string \<Rightarrow> json option \<Rightarrow> Client \<Rightarrow> Client" where
  "postCommand_begin endpoint body s =
     fetch \<lparr>req_method = ''POST'', req_path = endpoint,
            req_body = (case body of Some b \<Rightarrow> if truthy b then Some b else None | None \<Rightarrow> None),
            req_signal = None\<rparr>
       (s\<lparr>loading := True, error := None\<rparr>)"

definition post_finally :: "Client \<Rightarrow> Client" where
  "post_finally s = (if mountedRef s then s\<lparr>loading := False\<rparr> else s)"

text \<open>The promise of \<open>postCommand\<close> resolves to the data or rejects with the error.\<close>

definition postCommand_settle :: "js_error + json \<Rightarrow> Client \<Rightarrow> (js_error + json) \<times> Client" where
  "postCommand_settle r s =
     (case r of
        Inr data \<Rightarrow>
          (Inr data,
           post_finally
             ((if truthy data then merge_raw data s else s)
                \<lparr>connected := True, lastSeen := Some (clock s)\<rparr>))
      | Inl err \<Rightarrow>
          (Inl err,
           post_finally
             (s\<lparr>connected := False,
                error := Some (if err_message err \<noteq> [] then err_message err
                               else ''ESP32 not reachable'')\<rparr>)))"

subsection \<open>Handlers, mount and unmount\<close>

definition handlePower :: "bool \<Rightarrow> Client \<Rightarrow> Client" where
  "handlePower on s =
     postCommand_begin ''/api/power''
       (Some (JObj [(''power'', JStr (if on then ''ON'' else ''OFF''))])) s"

definition toggleDirection :: "Client \<Rightarrow> Client" where
  "toggleDirection s =
     (let newDir = (if dir (state s) = 1 then - 1 else (1::int))
      in postCommand_begin ''/api/direction''
           (Some (JObj [(''direction'', JStr (if newDir = 1 then ''Forward'' else ''Reverse''))])) s)"

definition handleSpeedChange :: "jsnum \<Rightarrow> Client \<Rightarrow> Client" where
  "handleSpeedChange val s =
     (let s1 = s\<lparr>state := (state s)\<lparr>speed := val\<rparr>\<rparr>;
          s2 = clear_ref (speedTimerRef s1) s1;
          (h, s3) = setTimeout (PostSpeed val) SPEED_DEBOUNCE_MS s2
      in s3\<lparr>speedTimerRef := Some h\<rparr>)"

definition handleRetry :: "Client \<Rightarrow> Client" where
  "handleRetry s =
     (let s1 = s\<lparr>backoffRef := 0\<rparr>
      in pollStateOnce_begin (clear_ref (pollTimerRef s1) s1))"

definition mount :: "Client \<Rightarrow> Client" where
  "mount s = pollStateOnce_begin (s\<lparr>mountedRef := True\<rparr>)"

definition unmount :: "Client \<Rightarrow> Client" where
  "unmount s =
     (let s1 = s\<lparr>mountedRef := False\<rparr>;
          s2 = (case pollAbortRef s1 of
                  Some c \<Rightarrow> s1\<lparr>aborted := c # aborted s1\<rparr>
                | None \<Rightarrow> s1);
          s3 = clear_ref (pollTimerRef s2) s2
      in clear_ref (speedTimerRef s3) s3)"

text \<open>The component before its first effect runs; timer handles start at 1.\<close>

definition initial :: Client where
  "initial =
     \<lparr>state = \<lparr>power = False, dir = 1, speed = Fin 100\<rparr>,
      loading = False, error = None, connected = False, lastSeen = None,
      backoffRef = 0, pollTimerRef = None, speedTimerRef = None, pollAbortRef = None,
      mountedRef = True, clock = 0, nextHandle = 1, timers = [],
      nextController = 0, aborted = [], requests = []\<rparr>"

subsection \<open>Timers coming due\<close>

definition fire :: "callback \<Rightarrow> Client \<Rightarrow> Client" where
  "fire cb s =
     (case cb of
        PollStateOnce \<Rightarrow> pollStateOnce_begin s
      | PostSpeed val \<Rightarrow>
          postCommand_begin ''/api/speed'' (Some (JObj [(''speed'', JNum val)])) s)"

definition due_timers :: "nat \<Rightarrow> Client \<Rightarrow> (nat \<times> nat \<times> callback) list" where
  "due_timers t s = filter (\<lambda>(h, d, cb). d \<le> t) (timers s)"

text \<open>
  Time passes until \<open>t\<close> with no other event: the timers due by then run, the earliest
  first, and of two due at the same time the one set first. Neither callback sets a
  timer itself, so the pending timers get fewer with each one that runs.
\<close>

function run_until :: "nat \<Rightarrow> Client \<Rightarrow> Client" where
  "run_until t s =
     (case due_timers t s of
        [] \<Rightarrow> s\<lparr>clock := max (clock s) t\<rparr>
      | x # xs \<Rightarrow>
          (case arg_min_list (\<lambda>(h, d, cb). d) (x # xs) of
             (h, d, cb) \<Rightarrow>
               run_until t (fire cb ((clearTimeout h s)\<lparr>clock := max (clock s) d\<rparr>))))"
  by pat_completeness auto
termination
proof (relation "measure (\<lambda>(t, s). length (timers s))", goal_cases)
  case 1
  show ?case by simp
next
  case (2 t s x xs h rest d cb)
  have "(h, d, cb) \<in> set (due_timers t s)"
    using 2 arg_min_list_in [of "x # xs" "\<lambda>(h, d, cb). d"] by simp
  then have mem: "(h, d, cb) \<in> set (timers s)"
    by (simp add: due_timers_def)
  have "length (filter (\<lambda>(h', d, cb). h' \<noteq> h) (timers s)) < length (timers s)"
    using mem by (intro length_filter_less [of "(h, d, cb)"]) auto
  moreover have "timers (fire cb s') = timers s'" for s'
    by (cases cb) (simp_all add: fire_def pollStateOnce_begin_def postCommand_begin_def
        fetch_def Let_def split: option.splits)
  ultimately show ?case
    by (simp add: clearTimeout_def)
qed

declare run_until.simps [simp del]

subsection \<open>Runs of the component\<close>

text \<open>One whole poll cycle: the request goes out, and \<open>fetchJson\<close> comes back with \<open>r\<close>.\<close>

definition poll_cycle :: "js_error + json \<Rightarrow> Client \<Rightarrow> Client" where
  "poll_cycle r s = pollStateOnce_settle r (pollStateOnce_begin s)"

fun poll_cycles :: "(js_error + json) list \<Rightarrow> Client \<Rightarrow> Client" where
  "poll_cycles [] s = s"
| "poll_cycles (r # rs) s = poll_cycles rs (poll_cycle r s)"

text \<open>
  A run of slider inputs: each entry is the time since the input before it, and the value.
  Between two inputs only time passes.
\<close>

fun slide :: "(nat \<times> jsnum) list \<Rightarrow> Client \<Rightarrow> Client" where
  "slide [] s = s"
| "slide ((gap, val) # rest) s =
     slide rest (handleSpeedChange val (run_until (clock s + gap) s))"

text \<open>The speeds of the \<open>POST /api/speed\<close> requests among the requests sent.\<close>

fun speed_posts :: "request list \<Rightarrow> json option list" where
  "speed_posts [] = []"
| "speed_posts (r # rs) =
     (if req_method r = ''POST'' \<and> req_path r = ''/api/speed''
      then req_body r # speed_posts rs else speed_posts rs)"

text \<open>The pending timers that will post a speed.\<close>

definition speed_timers :: "Client \<Rightarrow> (nat \<times> nat \<times> callback) list" where
  "speed_timers s = filter (\<lambda>(h, d, cb). cb \<noteq> PollStateOnce) (timers s)"

text \<open>
  What the browser and the component keep true of the timers between events: handles are
  positive, handed out once and in rising order, and a pending speed timer is the one
  \<open>speedTimerRef\<close> names.
\<close>

definition timers_ok :: "Client \<Rightarrow> bool" where
  "timers_ok s =
     (0 < nextHandle s \<and>
      distinct (map fst (timers s)) \<and>
      list_all (\<lambda>(h, d, cb). 0 < h \<and> h < nextHandle s) (timers s) \<and>
      list_all (\<lambda>(h, d, cb). speedTimerRef s = Some h) (speed_timers s))"

text \<open>
  The states the component can come to: after mounting, any of time passing, a poll or
  a command settling, and the user's actions, in any order.
\<close>

inductive reachable :: "Client \<Rightarrow> bool" where
  mounted: "reachable (mount initial)"
| time_passes: "reachable s \<Longrightarrow> reachable (run_until t s)"
| poll_settles: "reachable s \<Longrightarrow> reachable (pollStateOnce_settle r s)"
| command_settles: "reachable s \<Longrightarrow> reachable (snd (postCommand_settle r s))"
| power_pressed: "reachable s \<Longrightarrow> reachable (handlePower on s)"
| direction_pressed: "reachable s \<Longrightarrow> reachable (toggleDirection s)"
| slider_moved: "reachable s \<Longrightarrow> reachable (handleSpeedChange val s)"
| retry_pressed: "reachable s \<Longrightarrow> reachable (handleRetry s)"
| unmounted: "reachable s \<Longrightarrow> reachable (unmount s)"

text \<open>
  Two states met in the examples: the component one poll cycle in, with its second poll
  sent when the timer came due; and a failed response with status 500.
\<close>

definition polling :: Client where
  "polling = run_until 3000 (poll_cycle (Inr (JObj [(''power'', JStr ''ON'')])) initial)"

definition response_500 :: response where
  "response_500 =
     \<lparr>res_ok = False, res_status = 500, res_statusText = ''Internal Server Error'',
      res_text = Inr [], res_json = Inl (SyntaxError ''Unexpected end of JSON input'')\<rparr>"

text \<open>
  Two responses whose headers had arrived when the request's signal was aborted, so that
  reading the body rejects with an \<open>AbortError\<close>: one with status 500, one with status 200.
\<close>

definition cut_500 :: response where
  "cut_500 =
     \<lparr>res_ok = False, res_status = 500, res_statusText = ''Internal Server Error'',
      res_text = Inl (AbortError ''The operation was aborted.''),
      res_json = Inl (AbortError ''The operation was aborted.'')\<rparr>"

definition cut_200 :: response where
  "cut_200 =
     \<lparr>res_ok = True, res_status = 200, res_statusText = ''OK'',
      res_text = Inl (AbortError ''The operation was aborted.''),
      res_json = Inl (AbortError ''The operation was aborted.'')\<rparr>"

section \<open>The image analysis request of \<open>PlantHealth\<close>\<close>















section \<open>Properties of the reconciler\<close>

lemma lower_char_eq:
  "lower_char c = d \<longleftrightarrow>
     (if 65 \<le> (of_char c :: nat) \<and> (of_char c :: nat) \<le> 90
      then of_char c + 32 = (of_char d :: nat) else c = d)"
  unfolding lower_char_def Let_def by auto

lemma of_char_nat_eq: "(of_char c :: nat) = of_char d \<longleftrightarrow> c = d"
  by simp

lemma lower_char_o: "lower_char c = CHR ''o'' \<longleftrightarrow> c = CHR ''o'' \<or> c = CHR ''O''"
proof -
  have a: "(of_char c :: nat) = 79 \<longleftrightarrow> c = CHR ''O''"
    using of_char_nat_eq [of c "CHR ''O''"] by simp
  have b: "(of_char c :: nat) = 111 \<longleftrightarrow> c = CHR ''o''"
    using of_char_nat_eq [of c "CHR ''o''"] by simp
  show ?thesis
    using a b by (auto simp: lower_char_eq)
qed

lemma lower_char_n: "lower_char c = CHR ''n'' \<longleftrightarrow> c = CHR ''n'' \<or> c = CHR ''N''"
proof -
  have a: "(of_char c :: nat) = 78 \<longleftrightarrow> c = CHR ''N''"
    using of_char_nat_eq [of c "CHR ''N''"] by simp
  have b: "(of_char c :: nat) = 110 \<longleftrightarrow> c = CHR ''n''"
    using of_char_nat_eq [of c "CHR ''n''"] by simp
  show ?thesis
    using a b by (auto simp: lower_char_eq)
qed

text \<open>The strings that lower-case to \<open>on\<close> are the four spellings of it.\<close>

lemma lower_on: "map lower_char s = ''on'' \<longleftrightarrow> s \<in> {''on'', ''oN'', ''On'', ''ON''}"
proof (cases s)
  case Nil
  then show ?thesis by simp
next
  case (Cons a t)
  show ?thesis
  proof (cases t)
    case Nil
    with \<open>s = a # t\<close> show ?thesis by simp
  next
    case (Cons b u)
    with \<open>s = a # t\<close> show ?thesis
      by (cases u) (auto simp: lower_char_o lower_char_n)
  qed
qed

lemma powerVal_eq:
  "powerVal raw =
     Inr (raw_power raw = Some (JBool True) \<or>
          (\<exists>s. raw_power raw = Some (JStr s) \<and> s \<in> {''on'', ''oN'', ''On'', ''ON''}))"
  by (cases "raw_power raw" rule: typeof.cases)
    (auto simp: powerVal_def bind_err_def lower_on)

lemma dirVal_eq:
  "dirVal raw =
     Inr (if (\<exists>s. raw_direction raw = Some (JStr s) \<and> map lower_char s = ''reverse'')
          then - 1 else 1)"
  by (cases "raw_direction raw" rule: typeof.cases)
    (auto simp: dirVal_def bind_err_def)

text \<open>No branch of \<open>toMotorState\<close> throws: each \<open>.toLowerCase()\<close> sits behind its test.\<close>

lemma toMotorState_total: "\<exists>st. toMotorState raw prev = Inr st"
  by (simp add: toMotorState_def powerVal_eq dirVal_eq bind_err_def)




text \<open>
  Behind the callers' test \<open>if (raw)\<close> neither the property reads nor \<open>toMotorState\<close>
  throw.
\<close>

lemma toMotorState_any_total: "truthy raw \<Longrightarrow> \<exists>st. toMotorState_any raw prev = Inr st"
  using toMotorState_total
  by (cases raw rule: as_raw.cases) (simp_all add: toMotorState_any_def bind_err_def)





text \<open>
  C8. For every raw payload and every previous state, present or not, the reconciler
  returns a state whose power is true exactly when the raw power is the boolean \<open>true\<close> or
  a string that is \<open>on\<close> in some mix of upper and lower case. The previous state does not
  enter: every other raw power, an absent one too, gives false.
\<close>

theorem toMotorState_power:
  "\<exists>st. toMotorState raw prev = Inr st \<and>
     power st = (raw_power raw = Some (JBool True) \<or>
                 (\<exists>s. raw_power raw = Some (JStr s) \<and> s \<in> {''on'', ''oN'', ''On'', ''ON''}))"
  by (simp add: toMotorState_def powerVal_eq dirVal_eq bind_err_def)

text \<open>
  C9. When the raw speed is absent or is not a number (\<open>typeof\<close> other than
  \<open>"number"\<close>), the resulting speed is the speed of the previous state, and \<open>100\<close> when
  there is no previous state.
\<close>

theorem toMotorState_speed_inherited:
  assumes "typeof (raw_speed raw) \<noteq> ''number''"
  shows "\<exists>st. toMotorState raw prev = Inr st \<and>
           speed st = (case prev of None \<Rightarrow> Fin 100 | Some p \<Rightarrow> speed p)"
proof -
  from assms have "speedVal raw prev = (case prev of None \<Rightarrow> Fin 100 | Some p \<Rightarrow> speed p)"
    by (cases "raw_speed raw" rule: typeof.cases) (simp_all add: speedVal_def)
  then show ?thesis
    by (simp add: toMotorState_def powerVal_eq dirVal_eq bind_err_def)
qed

theorem toMotorState_speed_inherited_witness:
  "typeof (Some (JStr ''fast'')) \<noteq> ''number'' \<and>
   typeof None \<noteq> ''number'' \<and>
   (\<exists>st. toMotorState \<lparr>raw_power = Some (JStr ''ON''), raw_direction = None,
                         raw_speed = Some (JStr ''fast'')\<rparr>
            (Some \<lparr>power = False, dir = - 1, speed = Fin 40\<rparr>) = Inr st \<and> speed st = Fin 40) \<and>
   (\<exists>st. toMotorState \<lparr>raw_power = None, raw_direction = None, raw_speed = None\<rparr> None = Inr st \<and>
         speed st = Fin 100)"
  using toMotorState_speed_inherited
          [of "\<lparr>raw_power = Some (JStr ''ON''), raw_direction = None,
                raw_speed = Some (JStr ''fast'')\<rparr>"
              "Some \<lparr>power = False, dir = - 1, speed = Fin 40\<rparr>"]
        toMotorState_speed_inherited
          [of "\<lparr>raw_power = None, raw_direction = None, raw_speed = None\<rparr>" None]
  by simp

section \<open>Properties of the polling engine\<close>

subsection \<open>The steps as single updates\<close>

lemma merge_raw_eq:
  "merge_raw raw s =
     s\<lparr>state := (case toMotorState_any raw (Some (state s)) of
                    Inr st \<Rightarrow> st | Inl e \<Rightarrow> state s)\<rparr>"
  by (simp add: merge_raw_def split: sum.splits)

lemma clear_ref_eq:
  "clear_ref r s = s\<lparr>timers := filter (\<lambda>(h, d, cb). r \<noteq> Some h \<or> h = 0) (timers s)\<rparr>"
proof (cases r)
  case None
  then show ?thesis by (simp add: clear_ref_def)
next
  case (Some h)
  show ?thesis
  proof (cases "h = 0")
    case True
    have "filter (\<lambda>(h', d, cb). h \<noteq> h' \<or> h' = 0) (timers s) = filter (\<lambda>x. True) (timers s)"
      using True by (intro filter_cong) auto
    with Some True show ?thesis
      by (simp add: clear_ref_def)
  next
    case False
    have "filter (\<lambda>(h', d, cb). h \<noteq> h' \<or> h' = 0) (timers s) =
          filter (\<lambda>(h', d, cb). h' \<noteq> h) (timers s)"
      using False by (intro filter_cong) auto
    with Some False show ?thesis
      by (simp add: clear_ref_def clearTimeout_def)
  qed
qed

lemma pollStateOnce_begin_eq:
  "pollStateOnce_begin s =
     s\<lparr>aborted := (case pollAbortRef s of Some c \<Rightarrow> c # aborted s | None \<Rightarrow> aborted s),
       pollAbortRef := Some (nextController s),
       nextController := Suc (nextController s),
       requests := requests s @ [\<lparr>req_method = ''GET'', req_path = ''/api/state'',
                                  req_body = None, req_signal = Some (nextController s)\<rparr>]\<rparr>"
  by (simp add: pollStateOnce_begin_def fetch_def Let_def split: option.splits)

lemma poll_finally_eq:
  "poll_finally s =
     (if \<not> mountedRef s then s
      else s\<lparr>timers := filter (\<lambda>(h, d, cb). pollTimerRef s \<noteq> Some h \<or> h = 0) (timers s) @
                 [(nextHandle s, clock s + (if backoffRef s \<noteq> 0 then backoffRef s else 3000),
                   PollStateOnce)],
             nextHandle := Suc (nextHandle s),
             pollTimerRef := Some (nextHandle s)\<rparr>)"
  by (simp add: poll_finally_def clear_ref_eq setTimeout_def POLL_INTERVAL_def Let_def)

lemmas step_eqs = pollStateOnce_settle_def poll_finally_eq pollStateOnce_begin_eq merge_raw_eq
  MAX_BACKOFF_def poll_cycle_def

lemma polling_eq:
  "polling =
     \<lparr>state = \<lparr>power = True, dir = 1, speed = Fin 100\<rparr>,
      loading = False, error = None, connected = True, lastSeen = Some 0,
      backoffRef = 0, pollTimerRef = Some 1, speedTimerRef = None,
      pollAbortRef = Some 1, mountedRef = True, clock = 3000, nextHandle = 2,
      timers = [], nextController = 2, aborted = [0],
      requests =
        [\<lparr>req_method = ''GET'', req_path = ''/api/state'', req_body = None,
           req_signal = Some 0\<rparr>,
         \<lparr>req_method = ''GET'', req_path = ''/api/state'', req_body = None,
           req_signal = Some 1\<rparr>]\<rparr>"
  by code_simp

lemma fetchJson_response_500: "fetchJson (Resolved response_500) = Inl (Error ''500 Internal Server Error'')"
  by (simp add: fetchJson_def response_500_def trim_def is_space_def string_of_nat.simps
      digit_char_def)

subsection \<open>Cancellation\<close>

text \<open>
  When the \<open>fetch\<close> of a poll cycle itself rejects with an \<open>AbortError\<close>, the \<open>catch\<close>
  block ignores it: \<open>MotorState\<close>, \<open>connected\<close>, the error, \<open>lastSeen\<close> and the backoff
  stay as they are. The \<open>finally\<close> block still runs: after teardown it changes nothing,
  and while the component is mounted it clears the timer \<open>pollTimerRef\<close> names and sets a
  new poll timer.
\<close>

lemma aborted_poll_settle:
  assumes "err_name e = ''AbortError''"
  shows "let s' = pollStateOnce_settle (fetchJson (Rejected e)) s in
           state s' = state s \<and> connected s' = connected s \<and> error s' = error s \<and>
           lastSeen s' = lastSeen s \<and> backoffRef s' = backoffRef s \<and>
           (\<not> mountedRef s \<longrightarrow> s' = s) \<and>
           (mountedRef s \<longrightarrow>
              pollTimerRef s' = Some (nextHandle s) \<and>
              timers s' = timers (clear_ref (pollTimerRef s) s) @
                [(nextHandle s,
                  clock s + (if backoffRef s \<noteq> 0 then backoffRef s else 3000),
                  PollStateOnce)])"
  using assms by (simp add: fetchJson_def step_eqs clear_ref_eq)

lemma aborted_poll_reschedules:
  "timers (pollStateOnce_settle (fetchJson (Rejected (AbortError ''The operation was aborted.'')))
             (handleRetry polling)) \<noteq> timers (handleRetry polling) \<and>
   timers (handleRetry polling) = [] \<and>
   timers (pollStateOnce_settle (fetchJson (Rejected (AbortError ''The operation was aborted.'')))
             (handleRetry polling)) = [(2, 6000, PollStateOnce)] \<and>
   pollTimerRef (pollStateOnce_settle (fetchJson (Rejected (AbortError ''The operation was aborted.'')))
                   (handleRetry polling)) = Some 2"
  by (simp add: polling_eq handleRetry_def clear_ref_eq fetchJson_def step_eqs)

text \<open>
  C2. The claim: a poll cycle whose request is deliberately cancelled changes no shared
  state (\<open>MotorState\<close>, \<open>connected\<close>, the error, \<open>lastSeen\<close>, the backoff), reschedules
  nothing and never takes the failure response. The code at the component whose second
  poll (controller 1) is in flight when \<open>Retry Now\<close> is pressed, which aborts that
  controller, in the case that the response headers had arrived and \<open>fetchJson\<close> was
  reading the body. With status 500, \<open>res.text()\<close> rejects, \<open>fetchJson\<close> swallows the
  rejection and throws its own \<open>Error\<close>, whose name is not \<open>AbortError\<close>: the cancelled
  cycle takes the failure response, \<open>connected\<close> going from true to false, the error from
  none to a message, the backoff from 0 to 1000, with the next poll set 1000 ms later.
  With status 200, \<open>res.json()\<close> rejects, \<open>fetchJson\<close> returns \<open>null\<close>, and the cancelled
  cycle ends as a success, writing \<open>lastSeen\<close>.
\<close>

theorem aborted_body_read_mutates:
  "pollAbortRef polling = Some 1 \<and> aborted (handleRetry polling) = [1, 0] \<and>
   connected (handleRetry polling) = True \<and> error (handleRetry polling) = None \<and>
   backoffRef (handleRetry polling) = 0 \<and> lastSeen (handleRetry polling) = Some 0 \<and>
   fetchJson (Resolved cut_500) = Inl (Error ''500 Internal Server Error'') \<and>
   connected (pollStateOnce_settle (fetchJson (Resolved cut_500)) (handleRetry polling)) = False \<and>
   error (pollStateOnce_settle (fetchJson (Resolved cut_500)) (handleRetry polling))
     = Some ''Failed to connect to ESP32'' \<and>
   backoffRef (pollStateOnce_settle (fetchJson (Resolved cut_500)) (handleRetry polling)) = 1000 \<and>
   timers (pollStateOnce_settle (fetchJson (Resolved cut_500)) (handleRetry polling))
     = [(2, 4000, PollStateOnce)] \<and>
   fetchJson (Resolved cut_200) = Inr JNull \<and>
   lastSeen (pollStateOnce_settle (fetchJson (Resolved cut_200)) (handleRetry polling)) = Some 3000"
  by (simp add: polling_eq handleRetry_def clear_ref_eq fetchJson_def cut_500_def cut_200_def
      trim_def is_space_def string_of_nat.simps digit_char_def step_eqs)

subsection \<open>Failure and the unparsable body\<close>

text \<open>
  C3, as the claim states it, at a response with status 200 whose body does not parse,
  arriving for the poll in flight: \<open>fetchJson\<close> catches the parse error and returns
  \<open>null\<close>, and the cycle ends as a success: connected, no error, backoff 0, next poll after
  the base interval.
\<close>

theorem unparsable_body_is_success:
  "fetchJson (Resolved \<lparr>res_ok = True, res_status = 200, res_statusText = ''OK'',
                         res_text = Inr ''<html>'',
                         res_json = Inl (SyntaxError ''Unexpected token <'')\<rparr>) = Inr JNull \<and>
   connected (pollStateOnce_settle (Inr JNull) polling) = True \<and>
   error (pollStateOnce_settle (Inr JNull) polling) = None \<and>
   backoffRef (pollStateOnce_settle (Inr JNull) polling) = 0 \<and>
   backoffRef (pollStateOnce_settle (Inr JNull) polling) \<noteq> 1000 \<and>
   timers (pollStateOnce_settle (Inr JNull) polling) = [(2, 6000, PollStateOnce)]"
  by (simp add: polling_eq fetchJson_def step_eqs)

text \<open>
  C3, amended. When the request of a poll cycle fails on the network (it rejects, and not
  with an \<open>AbortError\<close>) or is answered with a status outside 2xx, the cycle takes the
  failure transition: \<open>connected\<close> false, the error set, the backoff 1000 on the first
  failure and otherwise doubled up to 30000, and, while mounted, the next cycle scheduled
  after the new delay. A 2xx response whose body fails to parse is taken as a success
  without payload: while mounted, \<open>connected\<close> true, the error cleared, the backoff 0,
  \<open>MotorState\<close> as it was, and the next cycle after 3000 ms.
\<close>

theorem poll_failure_transition:
  "(r = Rejected e \<and> err_name e \<noteq> ''AbortError'' \<or> r = Resolved res \<and> \<not> res_ok res \<longrightarrow>
     (let s' = pollStateOnce_settle (fetchJson r) s;
          b = (if backoffRef s = 0 then 1000 else min (backoffRef s * 2) 30000)
      in connected s' = False \<and> error s' = Some ''Failed to connect to ESP32'' \<and>
         backoffRef s' = b \<and> state s' = state s \<and>
         (mountedRef s \<longrightarrow> pollTimerRef s' = Some (nextHandle s) \<and>
            (nextHandle s, clock s + b, PollStateOnce) \<in> set (timers s')))) \<and>
   (res_ok res \<and> res_json res = Inl e \<and> mountedRef s \<longrightarrow>
     (let s' = pollStateOnce_settle (fetchJson (Resolved res)) s
      in connected s' = True \<and> error s' = None \<and> backoffRef s' = 0 \<and> state s' = state s \<and>
         lastSeen s' = Some (clock s) \<and>
         pollTimerRef s' = Some (nextHandle s) \<and>
         (nextHandle s, clock s + 3000, PollStateOnce) \<in> set (timers s')))"
  by (auto simp: fetchJson_def step_eqs Let_def)

theorem poll_failure_transition_witness:
  "\<not> res_ok response_500 \<and> mountedRef polling \<and>
   (let s' = pollStateOnce_settle (fetchJson (Resolved response_500)) polling
    in connected s' = False \<and> error s' = Some ''Failed to connect to ESP32'' \<and>
       backoffRef s' = 1000 \<and> state s' = state polling \<and>
       pollTimerRef s' = Some 2 \<and> (2, 4000, PollStateOnce) \<in> set (timers s')) \<and>
   err_name (TypeError ''Failed to fetch'') \<noteq> ''AbortError'' \<and>
   (let s' = pollStateOnce_settle (fetchJson (Rejected (TypeError ''Failed to fetch'')))
               (polling\<lparr>backoffRef := 16000\<rparr>)
    in connected s' = False \<and> backoffRef s' = 30000 \<and>
       (2, 33000, PollStateOnce) \<in> set (timers s')) \<and>
   (let res = \<lparr>res_ok = True, res_status = 200, res_statusText = ''OK'',
                res_text = Inr ''<html>'',
                res_json = Inl (SyntaxError ''Unexpected token <'')\<rparr>;
        s' = pollStateOnce_settle (fetchJson (Resolved res)) polling
    in res_ok res \<and> res_json res = Inl (SyntaxError ''Unexpected token <'') \<and>
       connected s' = True \<and> error s' = None \<and> backoffRef s' = 0 \<and>
       (2, 6000, PollStateOnce) \<in> set (timers s'))"
  using poll_failure_transition
          [of "Resolved response_500" "TypeError ''x''" response_500 polling]
        poll_failure_transition
          [of "Rejected (TypeError ''Failed to fetch'')" "TypeError ''Failed to fetch''"
              response_500 "polling\<lparr>backoffRef := 16000\<rparr>"]
        poll_failure_transition
          [of "Rejected (SyntaxError ''Unexpected token <'')" "SyntaxError ''Unexpected token <''"
              "\<lparr>res_ok = True, res_status = 200, res_statusText = ''OK'',
                res_text = Inr ''<html>'',
                res_json = Inl (SyntaxError ''Unexpected token <'')\<rparr>" polling]
  by (simp add: polling_eq response_500_def Let_def)

subsection \<open>Backoff\<close>

lemma poll_cycles_append: "poll_cycles (xs @ ys) s = poll_cycles ys (poll_cycles xs s)"
  by (induction xs arbitrary: s) simp_all

lemma poll_cycle_failure_backoff:
  "err_name e \<noteq> ''AbortError'' \<Longrightarrow>
   backoffRef (poll_cycle (Inl e) s) =
     (if backoffRef s \<noteq> 0 then min (backoffRef s * 2) 30000 else 1000)"
  by (simp add: step_eqs)

lemma poll_cycle_frame:
  "mountedRef (poll_cycle r s) = mountedRef s"
  "clock (poll_cycle r s) = clock s"
  by (cases r; simp add: step_eqs)+

lemma poll_cycles_frame:
  "mountedRef (poll_cycles rs s) = mountedRef s"
  "clock (poll_cycles rs s) = clock s"
  by (induction rs arbitrary: s; simp add: poll_cycle_frame)+

lemma poll_cycle_success:
  "mountedRef s \<Longrightarrow>
     backoffRef (poll_cycle (Inr raw) s) = 0 \<and>
     pollTimerRef (poll_cycle (Inr raw) s) = Some (nextHandle s) \<and>
     (nextHandle s, clock s + 3000, PollStateOnce) \<in> set (timers (poll_cycle (Inr raw) s))"
  by (simp add: step_eqs)

lemma backoff_formula:
  assumes "backoffRef s = 0" and "errs \<noteq> []"
    and "\<forall>e \<in> set errs. err_name e \<noteq> ''AbortError''"
  shows "backoffRef (poll_cycles (map Inl errs) s) = min (1000 * 2 ^ (length errs - 1)) 30000"
  using assms(2,3)
proof (induction errs rule: rev_nonempty_induct)
  case (single e)
  then show ?case
    using assms(1) by (simp add: poll_cycle_failure_backoff)
next
  case (snoc e errs)
  then have ih: "backoffRef (poll_cycles (map Inl errs) s) = min (1000 * 2 ^ (length errs - 1)) 30000"
    by simp
  from snoc have ne: "err_name e \<noteq> ''AbortError''"
    by simp
  from \<open>errs \<noteq> []\<close> obtain k where k: "length errs = Suc k"
    by (cases errs) auto
  show ?case
    by (simp add: poll_cycles_append poll_cycle_failure_backoff [OF ne] ih k min_def)
qed

text \<open>
  C5. The component is mounted and its backoff is 0 (as at the start, after a success
  or after \<open>Retry Now\<close>). After \<open>N \<ge> 1\<close> poll cycles in a row that each fail with
  an error other than an \<open>AbortError\<close>, the backoff is \<open>min (1000 * 2^(N-1)) 30000\<close>. A
  poll cycle that then succeeds sets the backoff to 0, and the poll timer it sets is due
  3000 ms later.
\<close>

theorem backoff_after_failures:
  assumes "backoffRef s = 0" and "mountedRef s" and "errs \<noteq> []"
    and "\<forall>e \<in> set errs. err_name e \<noteq> ''AbortError''"
  shows "backoffRef (poll_cycles (map Inl errs) s) = min (1000 * 2 ^ (length errs - 1)) 30000 \<and>
         backoffRef (poll_cycles (map Inl errs @ [Inr raw]) s) = 0 \<and>
         (\<exists>h. pollTimerRef (poll_cycles (map Inl errs @ [Inr raw]) s) = Some h \<and>
              (h, clock s + 3000, PollStateOnce)
                \<in> set (timers (poll_cycles (map Inl errs @ [Inr raw]) s)))"
proof -
  have m: "mountedRef (poll_cycles (map Inl errs) s)"
    using assms(2) by (simp add: poll_cycles_frame)
  show ?thesis
    using backoff_formula [OF assms(1,3,4)] poll_cycle_success [OF m, of raw]
    by (simp add: poll_cycles_append poll_cycles_frame)
qed

theorem backoff_after_failures_witness:
  "backoffRef initial = 0 \<and> mountedRef initial \<and>
   err_name (TypeError ''Failed to fetch'') \<noteq> ''AbortError'' \<and>
   backoffRef (poll_cycles (map Inl (replicate 7 (TypeError ''Failed to fetch''))) initial) = 30000 \<and>
   backoffRef (poll_cycles (map Inl [TypeError ''Failed to fetch'', Error ''503 Service Unavailable'',
                                      TypeError ''Failed to fetch'']) initial) = 4000 \<and>
   backoffRef (poll_cycles (map Inl [TypeError ''Failed to fetch'', Error ''503 Service Unavailable'',
                                      TypeError ''Failed to fetch''] @ [Inr (JObj [])]) initial) = 0"
  using backoff_after_failures [of initial "replicate 7 (TypeError ''Failed to fetch'')" JNull]
        backoff_after_failures
          [of initial "[TypeError ''Failed to fetch'', Error ''503 Service Unavailable'',
                        TypeError ''Failed to fetch'']" "JObj []"]
  by (simp add: initial_def)

subsection \<open>Teardown\<close>

text \<open>After teardown a response that arrives as a success is dropped, whatever it holds.\<close>

lemma late_success_dropped: "\<not> mountedRef s \<Longrightarrow> pollStateOnce_settle (Inr raw) s = s"
  by (simp add: step_eqs)

lemma late_abort_dropped:
  "\<not> mountedRef s \<Longrightarrow> err_name e = ''AbortError'' \<Longrightarrow> pollStateOnce_settle (Inl e) s = s"
  by (simp add: step_eqs)

text \<open>
  C6. The claim: after teardown every late response to the outstanding poll, success or
  failure, is dropped with no state changed. The code at the component unmounted while
  its second poll is in flight, when that poll is then answered with status 500: the
  \<open>catch\<close> block has no test of \<open>mountedRef\<close>, so \<open>connected\<close> goes from true to false,
  the error from none to a message, and the backoff from 0 to 1000. (The \<open>try\<close> block and
  the \<open>finally\<close> block each test \<open>mountedRef\<close> and return.)
\<close>

theorem late_failure_after_unmount:
  "mountedRef (unmount polling) = False \<and>
   connected (unmount polling) = True \<and>
   error (unmount polling) = None \<and>
   backoffRef (unmount polling) = 0 \<and>
   connected (pollStateOnce_settle (fetchJson (Resolved response_500)) (unmount polling)) = False \<and>
   error (pollStateOnce_settle (fetchJson (Resolved response_500)) (unmount polling))
     = Some ''Failed to connect to ESP32'' \<and>
   backoffRef (pollStateOnce_settle (fetchJson (Resolved response_500)) (unmount polling)) = 1000"
  by (simp add: polling_eq unmount_def clear_ref_eq fetchJson_response_500 step_eqs)

section \<open>Properties of the command dispatcher\<close>

lemma postCommand_settle_failure:
  "postCommand_settle (Inl err) s =
     (Inl err,
      s\<lparr>connected := False,
        error := Some (if err_message err \<noteq> [] then err_message err else ''ESP32 not reachable''),
        loading := (if mountedRef s then False else loading s)\<rparr>)"
  by (simp add: postCommand_settle_def post_finally_def)

lemma postCommand_settle_success:
  "postCommand_settle (Inr data) s =
     (Inr data,
      (if truthy data then merge_raw data s else s)
        \<lparr>connected := True, lastSeen := Some (clock s),
         loading := (if mountedRef s then False else loading s)\<rparr>)"
  by (simp add: postCommand_settle_def post_finally_def merge_raw_eq)

text \<open>
  C4, as the claim states it, at the component unmounted while a power command is in
  flight, when the command is then answered with status 500: the busy flag was set when
  the command went out, and \<open>finally\<close> leaves it set, since it clears the flag only
  behind \<open>if (mountedRef.current)\<close>.
\<close>

theorem busy_stays_after_unmount:
  "loading (unmount (handlePower True polling)) = True \<and>
   loading (snd (postCommand_settle (fetchJson (Resolved response_500))
                   (unmount (handlePower True polling)))) = True"
  by (simp add: polling_eq handlePower_def postCommand_begin_def fetch_def unmount_def
      clear_ref_eq fetchJson_response_500 postCommand_settle_failure)

text \<open>
  C4, amended. When the request of a command fails, the dispatcher rejects with the
  error, sets the error cell to a message that is not empty, sets \<open>connected\<close> to false and
  leaves \<open>MotorState\<close>, with any optimistic value in it, as it is. On completion, by
  success or by failure, the busy flag is cleared if the component is still mounted;
  after teardown it is left as it was.
\<close>

theorem postCommand_completion:
  "(fetchJson r = Inl err \<longrightarrow>
      fst (postCommand_settle (fetchJson r) s) = Inl err \<and>
      connected (snd (postCommand_settle (fetchJson r) s)) = False \<and>
      (\<exists>m. error (snd (postCommand_settle (fetchJson r) s)) = Some m \<and> m \<noteq> []) \<and>
      state (snd (postCommand_settle (fetchJson r) s)) = state s) \<and>
   (mountedRef s \<longrightarrow> loading (snd (postCommand_settle (fetchJson r) s)) = False) \<and>
   (\<not> mountedRef s \<longrightarrow> loading (snd (postCommand_settle (fetchJson r) s)) = loading s)"
  by (cases "fetchJson r")
    (simp_all add: postCommand_settle_failure postCommand_settle_success)

theorem postCommand_completion_witness:
  "fetchJson (Resolved response_500) = Inl (Error ''500 Internal Server Error'') \<and>
   mountedRef (handleSpeedChange (Fin 75) polling) \<and>
   loading (postCommand_begin ''/api/speed'' (Some (JObj [(''speed'', JNum (Fin 75))]))
              (handleSpeedChange (Fin 75) polling)) = True \<and>
   fst (postCommand_settle (fetchJson (Resolved response_500))
          (postCommand_begin ''/api/speed'' (Some (JObj [(''speed'', JNum (Fin 75))]))
             (handleSpeedChange (Fin 75) polling))) = Inl (Error ''500 Internal Server Error'') \<and>
   connected (snd (postCommand_settle (fetchJson (Resolved response_500))
          (postCommand_begin ''/api/speed'' (Some (JObj [(''speed'', JNum (Fin 75))]))
             (handleSpeedChange (Fin 75) polling)))) = False \<and>
   error (snd (postCommand_settle (fetchJson (Resolved response_500))
          (postCommand_begin ''/api/speed'' (Some (JObj [(''speed'', JNum (Fin 75))]))
             (handleSpeedChange (Fin 75) polling)))) = Some ''500 Internal Server Error'' \<and>
   speed (state (snd (postCommand_settle (fetchJson (Resolved response_500))
          (postCommand_begin ''/api/speed'' (Some (JObj [(''speed'', JNum (Fin 75))]))
             (handleSpeedChange (Fin 75) polling))))) = Fin 75 \<and>
   loading (snd (postCommand_settle (fetchJson (Resolved response_500))
          (postCommand_begin ''/api/speed'' (Some (JObj [(''speed'', JNum (Fin 75))]))
             (handleSpeedChange (Fin 75) polling)))) = False \<and>
   \<not> mountedRef (unmount (handlePower True polling)) \<and>
   loading (snd (postCommand_settle (fetchJson (Resolved response_500))
                   (unmount (handlePower True polling)))) = True"
  using postCommand_completion
          [of "Resolved response_500" "Error ''500 Internal Server Error''"
              "postCommand_begin ''/api/speed'' (Some (JObj [(''speed'', JNum (Fin 75))]))
                 (handleSpeedChange (Fin 75) polling)"]
        postCommand_completion
          [of "Resolved response_500" "Error ''500 Internal Server Error''"
              "unmount (handlePower True polling)"]
  by (simp add: polling_eq handlePower_def handleSpeedChange_def setTimeout_def
      postCommand_begin_def fetch_def unmount_def clear_ref_eq fetchJson_response_500
      postCommand_settle_failure Let_def)

section \<open>Properties of the debounce gate\<close>

subsection \<open>One timer coming due\<close>

lemma speed_posts_append: "speed_posts (xs @ ys) = speed_posts xs @ speed_posts ys"
  by (induction xs) simp_all

lemma fire_eq:
  "fire PollStateOnce s = pollStateOnce_begin s"
  "fire (PostSpeed v) s =
     s\<lparr>loading := True, error := None,
       requests := requests s @ [\<lparr>req_method = ''POST'', req_path = ''/api/speed'',
                                  req_body = Some (JObj [(''speed'', JNum v)]),
                                  req_signal = None\<rparr>]\<rparr>"
  by (simp_all add: fire_def postCommand_begin_def fetch_def)

lemma step_frame:
  "timers (fire cb ((clearTimeout h s)\<lparr>clock := c\<rparr>)) = filter (\<lambda>(h', d, cb). h' \<noteq> h) (timers s)"
  "nextHandle (fire cb ((clearTimeout h s)\<lparr>clock := c\<rparr>)) = nextHandle s"
  "speedTimerRef (fire cb ((clearTimeout h s)\<lparr>clock := c\<rparr>)) = speedTimerRef s"
  "speed_posts (requests (fire cb ((clearTimeout h s)\<lparr>clock := c\<rparr>))) =
     speed_posts (requests s) @
       (case cb of PollStateOnce \<Rightarrow> [] | PostSpeed v \<Rightarrow> [Some (JObj [(''speed'', JNum v)])])"
  by (cases cb; simp add: fire_eq pollStateOnce_begin_eq clearTimeout_def speed_posts_append)+

lemma speed_timers_step:
  "speed_timers (fire cb ((clearTimeout h s)\<lparr>clock := c\<rparr>)) =
     filter (\<lambda>(h', d, cb). h' \<noteq> h) (speed_timers s)"
  by (simp add: speed_timers_def step_frame) (metis (mono_tags, lifting) filter_cong conj_commute)

lemma distinct_fst_filter: "distinct (map fst xs) \<Longrightarrow> distinct (map fst (filter P xs))"
  by (induction xs) auto

lemma timers_ok_step:
  assumes "timers_ok s"
  shows "timers_ok (fire cb ((clearTimeout h s)\<lparr>clock := c\<rparr>))"
  using assms
  by (auto simp: timers_ok_def step_frame speed_timers_step distinct_fst_filter list_all_iff)

lemma run_until_idle:
  "due_timers t s = [] \<Longrightarrow> run_until t s = s\<lparr>clock := max (clock s) t\<rparr>"
  by (simp add: run_until.simps [of t s])

lemma run_until_fire:
  assumes "due_timers t s = x # xs"
  obtains h d cb where "(h, d, cb) \<in> set (timers s)" "d \<le> t"
    "arg_min_list (\<lambda>(h, d, cb). d) (x # xs) = (h, d, cb)"
    "run_until t s = run_until t (fire cb ((clearTimeout h s)\<lparr>clock := max (clock s) d\<rparr>))"
proof -
  obtain h d cb where am: "arg_min_list (\<lambda>(h, d, cb). d) (x # xs) = (h, d, cb)"
    by (cases "arg_min_list (\<lambda>(h, d, cb). d) (x # xs)") auto
  have "(h, d, cb) \<in> set (due_timers t s)"
    using arg_min_list_in [of "x # xs" "\<lambda>(h, d, cb). d"] am assms by simp
  then have "(h, d, cb) \<in> set (timers s)" "d \<le> t"
    by (simp_all add: due_timers_def)
  moreover have "run_until t s =
      run_until t (fire cb ((clearTimeout h s)\<lparr>clock := max (clock s) d\<rparr>))"
    using assms am by (simp add: run_until.simps [of t s])
  ultimately show thesis
    using am that by blast
qed

lemma timers_ok_clock: "timers_ok (s\<lparr>clock := c\<rparr>) = timers_ok s"
  by (simp add: timers_ok_def speed_timers_def)

lemma speed_timer_mem:
  "(h, d, cb) \<in> set (speed_timers s) \<longleftrightarrow> (h, d, cb) \<in> set (timers s) \<and> cb \<noteq> PollStateOnce"
  by (auto simp: speed_timers_def)

lemma same_handle:
  assumes "timers_ok s" "(h, d, cb) \<in> set (timers s)" "(h, d', cb') \<in> set (timers s)"
  shows "d = d' \<and> cb = cb'"
proof -
  from assms(1) have "distinct (map fst (timers s))"
    by (simp add: timers_ok_def)
  then have "inj_on fst (set (timers s))"
    by (simp add: distinct_map)
  from inj_onD [OF this _ assms(2,3)] show ?thesis
    by simp
qed

text \<open>While the one pending speed timer is not yet due, time passing leaves it alone.\<close>

lemma run_until_before_due:
  assumes "timers_ok s" and "speed_timers s = [(h, d, PostSpeed v)]" and "t < d"
  shows "timers_ok (run_until t s) \<and>
         speed_timers (run_until t s) = [(h, d, PostSpeed v)] \<and>
         speed_posts (requests (run_until t s)) = speed_posts (requests s) \<and>
         state (run_until t s) = state s \<and>
         clock (run_until t s) = max (clock s) t"
  using assms
proof (induction t s rule: run_until.induct)
  case (1 t s)
  show ?case
  proof (cases "due_timers t s")
    case Nil
    with 1(2,3) show ?thesis
      by (simp add: run_until_idle timers_ok_clock speed_timers_def)
  next
    case (Cons x xs)
    then obtain h' d' cb' where mem: "(h', d', cb') \<in> set (timers s)" and due: "d' \<le> t"
      and am: "arg_min_list (\<lambda>(h, d, cb). d) (x # xs) = (h', d', cb')"
      and run: "run_until t s =
                  run_until t (fire cb' ((clearTimeout h' s)\<lparr>clock := max (clock s) d'\<rparr>))"
      by (rule run_until_fire)
    let ?s' = "fire cb' ((clearTimeout h' s)\<lparr>clock := max (clock s) d'\<rparr>)"
    have poll: "cb' = PollStateOnce"
    proof (rule ccontr)
      assume "cb' \<noteq> PollStateOnce"
      with mem have "(h', d', cb') \<in> set (speed_timers s)"
        by (simp add: speed_timer_mem)
      with 1(3) have "d' = d" by simp
      with due 1(4) show False by simp
    qed
    have "(h, d, PostSpeed v) \<in> set (timers s)"
      using 1(3) speed_timer_mem [of h d "PostSpeed v" s] by simp
    with same_handle [OF 1(2) mem, of d "PostSpeed v"] poll have ne: "h \<noteq> h'"
      by auto
    have ok': "timers_ok ?s'"
      using 1(2) by (rule timers_ok_step)
    have sp': "speed_timers ?s' = [(h, d, PostSpeed v)]"
      using ne by (simp add: speed_timers_step 1(3))
    have posts': "speed_posts (requests ?s') = speed_posts (requests s)"
      by (simp add: step_frame poll)
    have st': "state ?s' = state s" "clock ?s' = max (clock s) d'"
      by (simp_all add: poll fire_eq pollStateOnce_begin_eq clearTimeout_def)
    from "1.IH" [OF Cons am [symmetric] refl ok' sp' 1(4)] posts' st' due
    show ?thesis
      by (simp add: run)
  qed
qed

text \<open>With no speed timer pending, time passing posts no speed.\<close>

lemma run_until_no_speed:
  assumes "timers_ok s" and "speed_timers s = []"
  shows "speed_timers (run_until t s) = [] \<and>
         speed_posts (requests (run_until t s)) = speed_posts (requests s)"
  using assms
proof (induction t s rule: run_until.induct)
  case (1 t s)
  show ?case
  proof (cases "due_timers t s")
    case Nil
    with 1(3) show ?thesis
      by (simp add: run_until_idle speed_timers_def)
  next
    case (Cons x xs)
    then obtain h' d' cb' where mem: "(h', d', cb') \<in> set (timers s)"
      and am: "arg_min_list (\<lambda>(h, d, cb). d) (x # xs) = (h', d', cb')"
      and run: "run_until t s =
                  run_until t (fire cb' ((clearTimeout h' s)\<lparr>clock := max (clock s) d'\<rparr>))"
      by (rule run_until_fire)
    let ?s' = "fire cb' ((clearTimeout h' s)\<lparr>clock := max (clock s) d'\<rparr>)"
    have poll: "cb' = PollStateOnce"
      using mem 1(3) speed_timer_mem [of h' d' cb' s] by auto
    have ok': "timers_ok ?s'"
      using 1(2) by (rule timers_ok_step)
    have sp': "speed_timers ?s' = []"
      by (simp add: speed_timers_step 1(3))
    have posts': "speed_posts (requests ?s') = speed_posts (requests s)"
      by (simp add: step_frame poll)
    from "1.IH" [OF Cons am [symmetric] refl ok' sp'] posts'
    show ?thesis
      by (simp add: run)
  qed
qed

text \<open>Once the pending speed timer is due, time passing runs it: one post, its value.\<close>

lemma run_until_past_due:
  assumes "timers_ok s" and "speed_timers s = [(h, d, PostSpeed v)]" and "d \<le> t"
  shows "speed_timers (run_until t s) = [] \<and>
         speed_posts (requests (run_until t s)) =
           speed_posts (requests s) @ [Some (JObj [(''speed'', JNum v)])]"
  using assms
proof (induction t s rule: run_until.induct)
  case (1 t s)
  have pending: "(h, d, PostSpeed v) \<in> set (timers s)"
    using 1(3) speed_timer_mem [of h d "PostSpeed v" s] by simp
  show ?case
  proof (cases "due_timers t s")
    case Nil
    moreover from pending 1(4) have "(h, d, PostSpeed v) \<in> set (due_timers t s)"
      by (simp add: due_timers_def)
    ultimately show ?thesis by simp
  next
    case (Cons x xs)
    then obtain h' d' cb' where mem: "(h', d', cb') \<in> set (timers s)"
      and am: "arg_min_list (\<lambda>(h, d, cb). d) (x # xs) = (h', d', cb')"
      and run: "run_until t s =
                  run_until t (fire cb' ((clearTimeout h' s)\<lparr>clock := max (clock s) d'\<rparr>))"
      by (rule run_until_fire)
    let ?s' = "fire cb' ((clearTimeout h' s)\<lparr>clock := max (clock s) d'\<rparr>)"
    have ok': "timers_ok ?s'"
      using 1(2) by (rule timers_ok_step)
    show ?thesis
    proof (cases "cb' = PollStateOnce")
      case True
      with same_handle [OF 1(2) mem, of d "PostSpeed v"] pending have ne: "h \<noteq> h'"
        by auto
      have sp': "speed_timers ?s' = [(h, d, PostSpeed v)]"
        using ne by (simp add: speed_timers_step 1(3))
      have posts': "speed_posts (requests ?s') = speed_posts (requests s)"
        by (simp add: step_frame True)
      from "1.IH" [OF Cons am [symmetric] refl ok' sp' 1(4)] posts'
      show ?thesis
        by (simp add: run)
    next
      case False
      with mem have "(h', d', cb') \<in> set (speed_timers s)"
        by (simp add: speed_timer_mem)
      with 1(3) have same: "h' = h" "d' = d" "cb' = PostSpeed v"
        by simp_all
      have sp': "speed_timers ?s' = []"
        by (simp add: speed_timers_step 1(3) same)
      have posts': "speed_posts (requests ?s') =
                      speed_posts (requests s) @ [Some (JObj [(''speed'', JNum v)])]"
        by (simp add: step_frame same)
      from run_until_no_speed [OF ok' sp', of t] posts'
      show ?thesis
        by (simp add: run)
    qed
  qed
qed

lemma setTimeout_eq:
  "setTimeout cb delay s =
     (nextHandle s,
      s\<lparr>timers := timers s @ [(nextHandle s, clock s + delay, cb)],
        nextHandle := Suc (nextHandle s)\<rparr>)"
  by (simp add: setTimeout_def)

lemma handleSpeedChange_eq:
  "handleSpeedChange val s =
     s\<lparr>state := (state s)\<lparr>speed := val\<rparr>,
       timers := filter (\<lambda>(h, d, cb). speedTimerRef s \<noteq> Some h \<or> h = 0) (timers s) @
                 [(nextHandle s, clock s + 150, PostSpeed val)],
       nextHandle := Suc (nextHandle s),
       speedTimerRef := Some (nextHandle s)\<rparr>"
  by (simp add: handleSpeedChange_def clear_ref_eq setTimeout_def SPEED_DEBOUNCE_MS_def Let_def)

text \<open>A slider input clears the pending speed timer and sets the only one there is then.\<close>

lemma handleSpeedChange_arms:
  assumes "timers_ok s"
  shows "timers_ok (handleSpeedChange val s) \<and>
         speed_timers (handleSpeedChange val s) = [(nextHandle s, clock s + 150, PostSpeed val)] \<and>
         requests (handleSpeedChange val s) = requests s \<and>
         clock (handleSpeedChange val s) = clock s \<and>
         speed (state (handleSpeedChange val s)) = val"
proof -
  let ?keep = "\<lambda>(h, d, cb). speedTimerRef s \<noteq> Some h \<or> h = (0::nat)"
  from assms have d: "distinct (map fst (timers s))" and p: "0 < nextHandle s"
    and b: "\<forall>(h, d, cb) \<in> set (timers s). 0 < h \<and> h < nextHandle s"
    and r: "\<forall>(h, d, cb) \<in> set (speed_timers s). speedTimerRef s = Some h"
    by (simp_all add: timers_ok_def list_all_iff)
  have gone: "filter (\<lambda>(h, d, cb). cb \<noteq> PollStateOnce) (filter ?keep (timers s)) = []"
    using b r by (auto simp: filter_empty_conv speed_timers_def)
  have fresh: "nextHandle s \<notin> fst ` set (filter ?keep (timers s))"
    using b by auto
  have sp: "speed_timers (handleSpeedChange val s) = [(nextHandle s, clock s + 150, PostSpeed val)]"
    using gone by (simp add: handleSpeedChange_eq speed_timers_def)
  have "distinct (map fst (timers (handleSpeedChange val s)))"
    using d fresh by (simp add: handleSpeedChange_eq distinct_fst_filter)
  moreover have "list_all (\<lambda>(h, d, cb). 0 < h \<and> h < nextHandle (handleSpeedChange val s))
                   (timers (handleSpeedChange val s))"
    using b p by (auto simp: handleSpeedChange_eq list_all_iff)
  moreover have "list_all (\<lambda>(h, d, cb). speedTimerRef (handleSpeedChange val s) = Some h)
                   (speed_timers (handleSpeedChange val s))"
    by (simp add: sp) (simp add: handleSpeedChange_eq)
  ultimately have "timers_ok (handleSpeedChange val s)"
    by (simp add: timers_ok_def) (simp add: handleSpeedChange_eq)
  with sp show ?thesis
    by (simp add: handleSpeedChange_eq)
qed

lemma slide_armed:
  assumes "timers_ok s" and "speed_timers s = [(h, clock s + 150, PostSpeed v)]"
    and "speed (state s) = v"
    and "list_all (\<lambda>(gap, val). gap < SPEED_DEBOUNCE_MS) rest"
  shows "timers_ok (slide rest s) \<and>
         (\<exists>h'. speed_timers (slide rest s) =
                 [(h', clock (slide rest s) + 150, PostSpeed (last (v # map snd rest)))]) \<and>
         speed_posts (requests (slide rest s)) = speed_posts (requests s) \<and>
         speed (state (slide rest s)) = last (v # map snd rest)"
  using assms
proof (induction rest arbitrary: s h v)
  case Nil
  then show ?case by simp
next
  case (Cons x rest)
  obtain gap val where x: "x = (gap, val)"
    by (cases x)
  with Cons.prems(4) have gap: "gap < 150" and rest: "list_all (\<lambda>(gap, val). gap < SPEED_DEBOUNCE_MS) rest"
    by (simp_all add: SPEED_DEBOUNCE_MS_def)
  let ?s1 = "run_until (clock s + gap) s"
  let ?s2 = "handleSpeedChange val ?s1"
  from gap have "clock s + gap < clock s + 150" by simp
  from run_until_before_due [OF Cons.prems(1,2) this]
  have ok1: "timers_ok ?s1" and posts1: "speed_posts (requests ?s1) = speed_posts (requests s)"
    by simp_all
  from handleSpeedChange_arms [OF ok1, of val]
  have ok2: "timers_ok ?s2"
    and sp2: "speed_timers ?s2 = [(nextHandle ?s1, clock ?s2 + 150, PostSpeed val)]"
    and posts2: "requests ?s2 = requests ?s1"
    and v2: "speed (state ?s2) = val"
    by simp_all
  from Cons.IH [OF ok2 sp2 v2 rest] posts1 posts2 show ?case
    by (simp add: x)
qed

lemma debounce_timers_ok:
  assumes "timers_ok s"
    and "list_all (\<lambda>(gap, val). gap < SPEED_DEBOUNCE_MS) rest"
    and "SPEED_DEBOUNCE_MS \<le> quiet"
  shows "let s' = slide rest (handleSpeedChange v0 s); final = last (v0 # map snd rest) in
           speed_posts (requests s') = speed_posts (requests s) \<and>
           speed (state s') = final \<and>
           (\<exists>h. speed_timers s' = [(h, clock s' + SPEED_DEBOUNCE_MS, PostSpeed final)]) \<and>
           speed_posts (requests (run_until (clock s' + quiet) s')) =
             speed_posts (requests s) @ [Some (JObj [(''speed'', JNum final)])] \<and>
           speed_timers (run_until (clock s' + quiet) s') = []"
proof -
  let ?s0 = "handleSpeedChange v0 s"
  let ?s' = "slide rest ?s0"
  let ?final = "last (v0 # map snd rest)"
  from handleSpeedChange_arms [OF assms(1), of v0]
  have ok0: "timers_ok ?s0"
    and sp0: "speed_timers ?s0 = [(nextHandle s, clock ?s0 + 150, PostSpeed v0)]"
    and posts0: "requests ?s0 = requests s"
    and v0: "speed (state ?s0) = v0"
    by simp_all
  from slide_armed [OF ok0 sp0 v0 assms(2)]
  obtain h where ok: "timers_ok ?s'"
    and sp: "speed_timers ?s' = [(h, clock ?s' + 150, PostSpeed ?final)]"
    and posts: "speed_posts (requests ?s') = speed_posts (requests ?s0)"
    and v: "speed (state ?s') = ?final"
    by blast
  from assms(3) have "clock ?s' + 150 \<le> clock ?s' + quiet"
    by (simp add: SPEED_DEBOUNCE_MS_def)
  from run_until_past_due [OF ok sp this] sp posts posts0 v show ?thesis
    by (simp add: Let_def SPEED_DEBOUNCE_MS_def)
qed

subsection \<open>The timers of every reachable state\<close>

lemma timers_ok_frame:
  assumes "timers s' = timers s" "nextHandle s' = nextHandle s" "speedTimerRef s' = speedTimerRef s"
  shows "timers_ok s' = timers_ok s"
  using assms by (simp add: timers_ok_def speed_timers_def)

lemma timers_ok_filter:
  assumes "timers_ok s" "timers s' = filter P (timers s)" "nextHandle s' = nextHandle s"
    "speedTimerRef s' = speedTimerRef s"
  shows "timers_ok s'"
  using assms
  by (auto simp: timers_ok_def speed_timers_def distinct_fst_filter list_all_iff)

lemma timers_ok_begin: "timers_ok (pollStateOnce_begin s) = timers_ok s"
  by (rule timers_ok_frame) (simp_all add: pollStateOnce_begin_eq)

lemma timers_ok_poll_finally:
  assumes "timers_ok s"
  shows "timers_ok (poll_finally s)"
proof (cases "mountedRef s")
  case False
  with assms show ?thesis by (simp add: poll_finally_eq)
next
  case True
  let ?keep = "\<lambda>(h, d, cb). pollTimerRef s \<noteq> Some h \<or> h = (0::nat)"
  let ?s' = "poll_finally s"
  from assms have p: "0 < nextHandle s" and d: "distinct (map fst (timers s))"
    and b: "\<forall>(h, d, cb) \<in> set (timers s). 0 < h \<and> h < nextHandle s"
    and r: "\<forall>(h, d, cb) \<in> set (speed_timers s). speedTimerRef s = Some h"
    by (simp_all add: timers_ok_def list_all_iff)
  have fresh: "nextHandle s \<notin> fst ` set (filter ?keep (timers s))"
    using b by auto
  have "distinct (map fst (timers ?s'))"
    using d fresh True by (simp add: poll_finally_eq distinct_fst_filter)
  moreover have "list_all (\<lambda>(h, d, cb). 0 < h \<and> h < nextHandle ?s') (timers ?s')"
    using b p True by (auto simp: poll_finally_eq list_all_iff)
  moreover have "list_all (\<lambda>(h, d, cb). speedTimerRef ?s' = Some h) (speed_timers ?s')"
    using r True by (auto simp: poll_finally_eq speed_timers_def list_all_iff)
  moreover have "0 < nextHandle ?s'"
    using True by (simp add: poll_finally_eq)
  ultimately show ?thesis
    by (simp add: timers_ok_def)
qed

lemma timers_ok_poll_settle:
  assumes "timers_ok s"
  shows "timers_ok (pollStateOnce_settle r s)"
proof -
  have "timers_ok s' \<Longrightarrow> timers_ok (poll_finally s')" for s'
    by (rule timers_ok_poll_finally)
  moreover have "timers_ok (s\<lparr>error := e, connected := c, backoffRef := b\<rparr>)" for e c b
    using assms by (simp add: timers_ok_def speed_timers_def)
  moreover have "timers_ok ((if truthy raw then merge_raw raw s else s)
                    \<lparr>error := e, connected := c, lastSeen := l, backoffRef := b\<rparr>)" for raw e c l b
    using assms by (simp add: timers_ok_def speed_timers_def merge_raw_eq)
  ultimately show ?thesis
    using assms by (simp add: pollStateOnce_settle_def split: sum.splits)
qed

lemma timers_ok_post_begin: "timers_ok (postCommand_begin endpoint body s) = timers_ok s"
  by (rule timers_ok_frame) (simp_all add: postCommand_begin_def fetch_def)

lemma timers_ok_post_settle: "timers_ok (snd (postCommand_settle r s)) = timers_ok s"
  by (rule timers_ok_frame)
    (cases r; simp add: postCommand_settle_failure postCommand_settle_success merge_raw_eq)+

lemma timers_ok_clear_ref: "timers_ok s \<Longrightarrow> timers_ok (clear_ref r s)"
  by (erule timers_ok_filter [where P = "\<lambda>(h, d, cb). r \<noteq> Some h \<or> h = 0"])
    (simp_all add: clear_ref_eq)

lemma timers_ok_retry: "timers_ok s \<Longrightarrow> timers_ok (handleRetry s)"
proof -
  assume "timers_ok s"
  then have "timers_ok (s\<lparr>backoffRef := 0\<rparr>)"
    by (simp add: timers_ok_def speed_timers_def)
  then show ?thesis
    by (simp add: handleRetry_def Let_def timers_ok_begin timers_ok_clear_ref)
qed

lemma timers_ok_unmount: "timers_ok s \<Longrightarrow> timers_ok (unmount s)"
proof -
  assume ok: "timers_ok s"
  have "timers_ok (case pollAbortRef s of
                     Some c \<Rightarrow> s\<lparr>mountedRef := False, aborted := c # aborted s\<rparr>
                   | None \<Rightarrow> s\<lparr>mountedRef := False\<rparr>)"
    using ok by (simp add: timers_ok_def speed_timers_def split: option.splits)
  then show ?thesis
    by (simp add: unmount_def Let_def timers_ok_clear_ref split: option.splits)
qed

lemma timers_ok_run_until: "timers_ok s \<Longrightarrow> timers_ok (run_until t s)"
proof (induction t s rule: run_until.induct)
  case (1 t s)
  show ?case
  proof (cases "due_timers t s")
    case Nil
    with 1(2) show ?thesis
      by (simp add: run_until_idle timers_ok_clock)
  next
    case (Cons x xs)
    then obtain h d cb where am: "arg_min_list (\<lambda>(h, d, cb). d) (x # xs) = (h, d, cb)"
      and run: "run_until t s =
                  run_until t (fire cb ((clearTimeout h s)\<lparr>clock := max (clock s) d\<rparr>))"
      by (rule run_until_fire)
    from "1.IH" [OF Cons am [symmetric] refl timers_ok_step [OF 1(2)]] show ?thesis
      by (simp add: run)
  qed
qed

lemma timers_ok_initial: "timers_ok (mount initial)"
  by (simp add: mount_def timers_ok_begin) (simp add: timers_ok_def speed_timers_def initial_def)

lemma reachable_timers_ok: "reachable s \<Longrightarrow> timers_ok s"
proof (induction rule: reachable.induct)
  case mounted
  show ?case by (rule timers_ok_initial)
next
  case (slider_moved s val)
  then show ?case by (simp add: handleSpeedChange_arms)
qed (simp_all add: timers_ok_run_until timers_ok_poll_settle timers_ok_post_settle
      handlePower_def toggleDirection_def Let_def timers_ok_post_begin timers_ok_retry
      timers_ok_unmount)

lemma reachable_polling: "reachable polling"
proof -
  have "mount initial = pollStateOnce_begin initial"
    by (simp add: mount_def initial_def)
  then have eq: "polling =
      run_until 3000 (pollStateOnce_settle (Inr (JObj [(''power'', JStr ''ON'')])) (mount initial))"
    by (simp add: polling_def poll_cycle_def)
  show ?thesis
    unfolding eq by (intro reachable.intros)
qed

text \<open>
  C7. The component is in any state it can reach. The slider is moved, then moved again
  any number of times, each move less than 150 ms after the one before (times are those
  at which the handlers run), and then left alone for 150 ms or more. During the burst no
  speed command is sent; every move replaces the pending speed timer by one due 150 ms
  after it, holding the value of that move, while the local speed follows at once. When
  the quiet period has passed, exactly one \<open>POST /api/speed\<close> has been added to the
  requests sent, with the last value of the burst, and no speed timer is pending.
\<close>

theorem debounce_single_post:
  assumes "reachable s"
    and "list_all (\<lambda>(gap, val). gap < SPEED_DEBOUNCE_MS) rest"
    and "SPEED_DEBOUNCE_MS \<le> quiet"
  shows "let s' = slide rest (handleSpeedChange v0 s); final = last (v0 # map snd rest) in
           speed_posts (requests s') = speed_posts (requests s) \<and>
           speed (state s') = final \<and>
           (\<exists>h. speed_timers s' = [(h, clock s' + SPEED_DEBOUNCE_MS, PostSpeed final)]) \<and>
           speed_posts (requests (run_until (clock s' + quiet) s')) =
             speed_posts (requests s) @ [Some (JObj [(''speed'', JNum final)])] \<and>
           speed_timers (run_until (clock s' + quiet) s') = []"
  using debounce_timers_ok [OF reachable_timers_ok [OF assms(1)] assms(2,3)] .

theorem debounce_single_post_witness:
  "reachable polling \<and> speed_posts (requests polling) = [] \<and>
   speed_posts (requests (slide [(50, Fin 40), (60, Fin 75)] (handleSpeedChange (Fin 10) polling))) = [] \<and>
   speed_posts (requests
     (run_until (clock (slide [(50, Fin 40), (60, Fin 75)] (handleSpeedChange (Fin 10) polling)) + 150)
        (slide [(50, Fin 40), (60, Fin 75)] (handleSpeedChange (Fin 10) polling)))) =
     [Some (JObj [(''speed'', JNum (Fin 75))])]"
proof -
  have none: "speed_posts (requests polling) = []"
    by (simp add: polling_eq)
  show ?thesis
    using debounce_single_post [OF reachable_polling, of "[(50, Fin 40), (60, Fin 75)]" 150 "Fin 10"]
      reachable_polling none
    by (simp add: SPEED_DEBOUNCE_MS_def Let_def)
qed



section \<open>Properties of the image analysis request\<close>














end
